theory Spec2Isabelle
  imports Main "HOL-Library.AList"
begin

section \<open>The JavaScript library functions that mod.ts calls\<close>

text \<open>
  A JavaScript string is a sequence of code units; the functions below only compare and
  copy code units, so a string is modelled as a \<^typ>\<open>string\<close>.
\<close>

definition startsWith :: "string \<Rightarrow> string \<Rightarrow> bool" where
  "startsWith s pat = (take (length pat) s = pat)"

text \<open>\<^verbatim>\<open>s.includes(pat)\<close>: \<open>pat\<close> occurs somewhere in \<open>s\<close>.\<close>

fun String_includes :: "string \<Rightarrow> string \<Rightarrow> bool" where
  "String_includes [] pat = (pat = [])"
| "String_includes (c # s) pat = (startsWith (c # s) pat \<or> String_includes s pat)"

text \<open>
  \<open>GetSubstitution\<close> of ECMAScript, as \<^verbatim>\<open>String.prototype.replace\<close> calls it for a
  string pattern: there are no capture groups, so in the replacement text only
  \<^verbatim>\<open>$$\<close>, \<^verbatim>\<open>$&\<close>, \<^verbatim>\<open>$`\<close> and \<^verbatim>\<open>$'\<close> are special, and every other code unit (also a
  \<^verbatim>\<open>$\<close> before a digit or before \<^verbatim>\<open><\<close>) is copied. The arguments are the matched
  text, the text before the match, the text after it, and the replacement.
\<close>

fun GetSubstitution :: "string \<Rightarrow> string \<Rightarrow> string \<Rightarrow> string \<Rightarrow> string" where
  "GetSubstitution matched preceding following (c # d # rest) =
     (if c = CHR ''$'' \<and> d = CHR ''$'' then CHR ''$'' # GetSubstitution matched preceding following rest
      else if c = CHR ''$'' \<and> d = CHR ''&'' then matched @ GetSubstitution matched preceding following rest
      else if c = CHR ''$'' \<and> d = CHR 0x60 then preceding @ GetSubstitution matched preceding following rest
      else if c = CHR ''$'' \<and> d = CHR 0x27 then following @ GetSubstitution matched preceding following rest
      else c # GetSubstitution matched preceding following (d # rest))"
| "GetSubstitution matched preceding following rest = rest"

text \<open>
  \<^verbatim>\<open>s.replace(pat, rep)\<close> with a string pattern: the first occurrence of \<open>pat\<close>, scanning
  from the left, is replaced by the expansion of \<open>rep\<close>; a string without an occurrence
  is returned as it is. \<open>pre\<close> holds the code units already passed.
\<close>

fun replace_from :: "string \<Rightarrow> string \<Rightarrow> string \<Rightarrow> string \<Rightarrow> string" where
  "replace_from pre [] pat rep =
     (if pat = [] then pre @ GetSubstitution pat pre [] rep else pre)"
| "replace_from pre (c # s) pat rep =
     (if startsWith (c # s) pat
      then pre @ GetSubstitution pat pre (drop (length pat) (c # s)) rep
               @ drop (length pat) (c # s)
      else replace_from (pre @ [c]) s pat rep)"

definition String_replace :: "string \<Rightarrow> string \<Rightarrow> string \<Rightarrow> string" where
  "String_replace s pat rep = replace_from [] s pat rep"

text \<open>
  \<^verbatim>\<open>endpoint.match(/:([^\/]*)/g) || []\<close>: the matches of the global regular expression,
  left to right. A match starts at a colon and takes every code unit up to the next
  \<^verbatim>\<open>/\<close> or the end of the string (further colons included); the search goes on after it.
\<close>

function match_placeholders :: "string \<Rightarrow> string list" where
  "match_placeholders [] = []"
| "match_placeholders (c # s) =
     (if c = CHR '':''
      then (c # takeWhile (\<lambda>d. d \<noteq> CHR ''/'') s)
             # match_placeholders (dropWhile (\<lambda>d. d \<noteq> CHR ''/'') s)
      else match_placeholders s)"
  by pat_completeness auto
termination
  by (relation "measure length") (auto simp: le_imp_less_Suc length_dropWhile_le)

text \<open>\<^verbatim>\<open>match.slice(1)\<close>.\<close>

definition slice1 :: "string \<Rightarrow> string" where
  "slice1 s = drop 1 s"

text \<open>
  \<^verbatim>\<open>Array.from(new Set(xs))\<close>: the elements of \<open>xs\<close> in the order of their first
  occurrence, each once.
\<close>

definition Set_from :: "'a list \<Rightarrow> 'a list" where
  "Set_from xs = foldl (\<lambda>acc x. if x \<in> set acc then acc else acc @ [x]) [] xs"

text \<open>\<^verbatim>\<open>xs.join(sep)\<close>.\<close>

fun join :: "string \<Rightarrow> string list \<Rightarrow> string" where
  "join sep [] = []"
| "join sep [x] = x"
| "join sep (x # y # ys) = x @ sep @ join sep (y # ys)"

section \<open>Objects, URLs and the host\<close>

text \<open>
  The flat mapping that a \<open>param\<close> transform returns is an ordinary object with string
  values. It is modelled by its own enumerable properties in the order in which
  \<^verbatim>\<open>Object.entries\<close> lists them; its prototype is \<^verbatim>\<open>Object.prototype\<close>, as for the object
  literal \<^verbatim>\<open>{}\<close> of line 102.
\<close>

type_synonym js_object = "(string \<times> string) list"

text \<open>
  The state of a \<^verbatim>\<open>URL\<close> object: what precedes the path, the path, the list behind
  \<^verbatim>\<open>url.searchParams\<close>, and the fragment.
\<close>

record URL =
  origin :: string
  pathname :: string
  searchParams :: "(string \<times> string) list"
  hash :: string

text \<open>
  What the runtime provides and mod.ts does not define: the constructor
  \<^verbatim>\<open>new URL(endpoint, base)\<close> (\<open>None\<close> when it throws), the path that the URL type
  stores when a string is assigned to \<^verbatim>\<open>url.pathname\<close> (its escaping and normalisation),
  and the property names of \<^verbatim>\<open>Object.prototype\<close>.
\<close>

record host =
  new_URL :: "string \<Rightarrow> string \<Rightarrow> URL option"
  pathname_setter :: "string \<Rightarrow> string"
  Object_prototype :: "string list"

text \<open>\<^verbatim>\<open>key in params\<close>: an own property, or one inherited from the prototype.\<close>

definition has_property :: "host \<Rightarrow> js_object \<Rightarrow> string \<Rightarrow> bool" where
  "has_property h params key = (key \<in> set (map fst params) \<or> key \<in> set (Object_prototype h))"

text \<open>
  What a call can throw: the \<^verbatim>\<open>Error\<close> of line 22 with its message, the TypeError of the
  runtime (calling a transform that is not registered, reading a member of a missing
  registry entry, a URL that cannot be built), or whatever a transform throws.
\<close>

datatype 'x error =
  Error string
  | TypeError
  | Thrown 'x

section \<open>assertHasAllParams (lines 14 to 26)\<close>

definition missingParams :: "host \<Rightarrow> string \<Rightarrow> js_object \<Rightarrow> string list" where
  "missingParams h endpoint params =
     (let matches = match_placeholders endpoint;
          keys = Set_from (map slice1 matches)
      in filter (\<lambda>key. \<not> has_property h params key) keys)"

definition not_found_message :: "string list \<Rightarrow> string \<Rightarrow> string" where
  "not_found_message missing endpoint =
     CHR 0x22 # join '', '' missing @ CHR 0x22 # '' not found in endpoint: '' @ endpoint"

definition assertHasAllParams :: "host \<Rightarrow> string \<Rightarrow> js_object \<Rightarrow> 'x error + unit" where
  "assertHasAllParams h endpoint params =
     (if length (missingParams h endpoint params) > 0
      then Inl (Error (not_found_message (missingParams h endpoint params) endpoint))
      else Inr ())"

section \<open>The registry and the Fetcher (lines 36 to 114)\<close>

record ('p, 'b, 'pl, 'resp, 'r, 'x) AbstractApi =
  param :: "('p \<Rightarrow> 'x + js_object) option"
  body :: "('b \<Rightarrow> 'x + 'pl) option"
  response :: "'resp \<Rightarrow> 'x + 'r"

record ('p, 'b, 'pl, 'resp, 'r, 'x) FectherInit =
  baseUrl :: string
  api :: "string \<rightharpoonup> (string \<rightharpoonup> ('p, 'b, 'pl, 'resp, 'r, 'x) AbstractApi)"

text \<open>\<^verbatim>\<open>this.init.api[endpoint][method]\<close>; reading a member of a missing entry is a TypeError.\<close>

definition api_entry ::
  "('p, 'b, 'pl, 'resp, 'r, 'x) FectherInit \<Rightarrow> string \<Rightarrow> string
     \<Rightarrow> ('p, 'b, 'pl, 'resp, 'r, 'x) AbstractApi option" where
  "api_entry init endpoint method =
     (case api init endpoint of None \<Rightarrow> None | Some methods \<Rightarrow> methods method)"

text \<open>
  The first argument of the bound function. \<open>args_param\<close> is \<open>None\<close> when
  \<^verbatim>\<open>args.param\<close> is omitted (line 90 tests its truth value, and a parameter object is
  never falsy); \<open>args_body\<close> is \<open>None\<close> when \<^verbatim>\<open>args.body\<close> is omitted or null
  (line 105). The second argument, \<open>options\<close>, is \<open>None\<close> when omitted, and then
  defaults to \<^verbatim>\<open>{}\<close>.
\<close>

record ('p, 'b) call_args =
  args_param :: "'p option"
  args_body :: "'b option"

text \<open>
  The second argument of the transport, \<^verbatim>\<open>{ ...options, method, body }\<close>: the properties
  of \<open>options\<close>, then \<open>method\<close> and \<open>body\<close> written over them (a property that
  exists keeps its place and gets the new value, a new one goes to the end).
\<close>

datatype ('v, 'pl) init_value =
  Option_value 'v
  | Method_value string
  | Body_value "'pl option"

record ('v, 'pl) request =
  req_url :: URL
  req_init :: "(string \<times> ('v, 'pl) init_value) list"

definition request_init ::
  "(string \<times> 'v) list \<Rightarrow> string \<Rightarrow> 'pl option \<Rightarrow> (string \<times> ('v, 'pl) init_value) list" where
  "request_init options method payload =
     AList.update ''body'' (Body_value payload)
       (AList.update ''method'' (Method_value method)
          (map (\<lambda>(k, v). (k, Option_value v)) options))"

text \<open>
  The state that an invocation reads and writes: the \<open>url\<close> object that the closure
  captured at line 81, and the calls made to the transport so far.
\<close>

record ('v, 'pl) state =
  url :: URL
  fetched :: "('v, 'pl) request list"

text \<open>\<^verbatim>\<open>Fetcher.fetch(endpoint, method)\<close>, line 81: the URL object that the closure captures.\<close>

definition Fetcher_fetch ::
  "host \<Rightarrow> ('p, 'b, 'pl, 'resp, 'r, 'x) FectherInit \<Rightarrow> string \<Rightarrow> 'x error + URL" where
  "Fetcher_fetch h init endpoint =
     (case new_URL h endpoint (baseUrl init) of None \<Rightarrow> Inl TypeError | Some u \<Rightarrow> Inr u)"

text \<open>Lines 94 to 100: one step of the \<open>forEach\<close>, and the whole loop.\<close>

definition substitute_entry :: "host \<Rightarrow> URL \<Rightarrow> string \<times> string \<Rightarrow> URL" where
  "substitute_entry h u kv =
     (case kv of (key, value) \<Rightarrow>
        if String_includes (pathname u) (CHR '':'' # key)
        then u\<lparr>pathname := pathname_setter h (String_replace (pathname u) (CHR '':'' # key) value)\<rparr>
        else u\<lparr>searchParams := searchParams u @ [(key, value)]\<rparr>)"

definition substitute :: "host \<Rightarrow> js_object \<Rightarrow> URL \<Rightarrow> URL" where
  "substitute h params u = foldl (substitute_entry h) u params"

text \<open>Lines 90 to 103: the URL after the parameters are resolved, or the error thrown.\<close>

definition resolve_url ::
  "host \<Rightarrow> ('p, 'b, 'pl, 'resp, 'r, 'x) FectherInit \<Rightarrow> string \<Rightarrow> string
     \<Rightarrow> ('p, 'b) call_args \<Rightarrow> URL \<Rightarrow> 'x error + URL" where
  "resolve_url h init endpoint method args u =
     (case args_param args of
        Some p \<Rightarrow>
          (case api_entry init endpoint method of
             None \<Rightarrow> Inl TypeError
           | Some entry \<Rightarrow>
               (case param entry of
                  None \<Rightarrow> Inl TypeError
                | Some transform \<Rightarrow>
                    (case transform p of
                       Inl x \<Rightarrow> Inl (Thrown x)
                     | Inr params \<Rightarrow>
                         (case assertHasAllParams h endpoint params of
                            Inl e \<Rightarrow> Inl e
                          | Inr _ \<Rightarrow> Inr (substitute h params u)))))
      | None \<Rightarrow>
          (case assertHasAllParams h endpoint [] of
             Inl e \<Rightarrow> Inl e
           | Inr _ \<Rightarrow> Inr u))"

text \<open>Lines 105 to 107: the payload, \<open>None\<close> for \<^verbatim>\<open>undefined\<close>.\<close>

definition resolve_body ::
  "('p, 'b, 'pl, 'resp, 'r, 'x) FectherInit \<Rightarrow> string \<Rightarrow> string
     \<Rightarrow> ('p, 'b) call_args \<Rightarrow> 'x error + 'pl option" where
  "resolve_body init endpoint method args =
     (case args_body args of
        Some b \<Rightarrow>
          (case api_entry init endpoint method of
             None \<Rightarrow> Inl TypeError
           | Some entry \<Rightarrow>
               (case body entry of
                  None \<Rightarrow> Inl TypeError
                | Some transform \<Rightarrow>
                    (case transform b of
                       Inl x \<Rightarrow> Inl (Thrown x)
                     | Inr payload \<Rightarrow> Inr (Some payload))))
      | None \<Rightarrow> Inr None)"

text \<open>
  What the caller of the bound function gets: an exception thrown by the call itself, or
  a promise, rejected (\<open>Inl\<close>) or fulfilled (\<open>Inr\<close>).
\<close>

datatype ('x, 'r) outcome =
  Throws "'x error"
  | Promise "'x + 'r"

text \<open>
  The bound function, lines 83 to 112. The transport is the global \<open>fetch\<close>, a
  parameter: a promise of a response for each request.
\<close>

definition bound_call ::
  "host \<Rightarrow> (('v, 'pl) request \<Rightarrow> 'x + 'resp) \<Rightarrow> ('p, 'b, 'pl, 'resp, 'r, 'x) FectherInit
     \<Rightarrow> string \<Rightarrow> string \<Rightarrow> ('p, 'b) call_args \<Rightarrow> (string \<times> 'v) list option
     \<Rightarrow> ('v, 'pl) state \<Rightarrow> ('x, 'r) outcome \<times> ('v, 'pl) state" where
  "bound_call h transport init endpoint method args options st =
     (case resolve_url h init endpoint method args (url st) of
        Inl e \<Rightarrow> (Throws e, st)
      | Inr u \<Rightarrow>
          (case resolve_body init endpoint method args of
             Inl e \<Rightarrow> (Throws e, st\<lparr>url := u\<rparr>)
           | Inr payload \<Rightarrow>
               (let req = \<lparr>req_url = u,
                           req_init = request_init (case options of None \<Rightarrow> [] | Some os \<Rightarrow> os)
                                        method payload\<rparr>;
                    st' = \<lparr>url = u, fetched = fetched st @ [req]\<rparr>
                in case api_entry init endpoint method of
                     None \<Rightarrow> (Throws TypeError, st')
                   | Some entry \<Rightarrow>
                       (Promise (case transport req of
                                   Inl x \<Rightarrow> Inl x
                                 | Inr resp \<Rightarrow> response entry resp), st'))))"

section \<open>A concrete host and registry\<close>

text \<open>
  A host for evaluating the functions above on concrete calls. Its URL type keeps the
  base as the origin and the endpoint as the path, and stores an assigned path as it
  is: that is what the URL type of the runtime does for a base without a path and for
  endpoints and values made of letters, digits, \<^verbatim>\<open>/\<close>, \<^verbatim>\<open>:\<close> and \<^verbatim>\<open>$\<close>, the only ones
  used below; it is no model of the URL type outside them (a relative endpoint, one that
  starts with \<^verbatim>\<open>//\<close>, a value to escape, a base that is no URL). \<open>Object_prototype\<close>
  lists the properties of \<^verbatim>\<open>Object.prototype\<close> in Deno, which deletes \<^verbatim>\<open>__proto__\<close> from it.
\<close>

definition plain_host :: host where
  "plain_host =
     \<lparr>new_URL = (\<lambda>endpoint base.
        Some \<lparr>origin = base, pathname = endpoint, searchParams = [], hash = []\<rparr>),
      pathname_setter = (\<lambda>s. s),
      Object_prototype = [''constructor'', ''hasOwnProperty'', ''isPrototypeOf'',
        ''propertyIsEnumerable'', ''toLocaleString'', ''toString'', ''valueOf'',
        ''__defineGetter__'', ''__defineSetter__'', ''__lookupGetter__'',
        ''__lookupSetter__'']\<rparr>"

text \<open>
  An entry in the style of the test at the end of mod.ts: \<open>param\<close> gets the flat
  mapping itself, \<open>body\<close> wraps a name, and \<open>response\<close> tells whether the text of the
  response is \<^verbatim>\<open>ok\<close>.
\<close>

definition sample_api :: "(js_object, string, string, string, bool, unit) AbstractApi" where
  "sample_api =
     \<lparr>param = Some Inr,
      body = Some (\<lambda>name. Inr (''name='' @ name)),
      response = (\<lambda>text. Inr (text = ''ok''))\<rparr>"

definition single_init ::
  "string \<Rightarrow> string \<Rightarrow> (js_object, string, string, string, bool, unit) FectherInit" where
  "single_init endpoint method =
     \<lparr>baseUrl = ''https://api.example.com'', api = [endpoint \<mapsto> [method \<mapsto> sample_api]]\<rparr>"

definition ok_transport :: "(string, string) request \<Rightarrow> unit + string" where
  "ok_transport req = Inr ''ok''"

text \<open>
  A transport that answers \<^verbatim>\<open>ok\<close> to one request only, the one with the given path,
  method and payload, and \<^verbatim>\<open>refused\<close> to every other.
\<close>

definition expecting_transport ::
  "string \<Rightarrow> string \<Rightarrow> string option \<Rightarrow> (string, string) request \<Rightarrow> unit + string" where
  "expecting_transport path method payload req =
     (if pathname (req_url req) = path
         \<and> map_of (req_init req) ''method'' = Some (Method_value method)
         \<and> map_of (req_init req) ''body'' = Some (Body_value payload)
      then Inr ''ok'' else Inr ''refused'')"

definition example_url :: "string \<Rightarrow> (string \<times> string) list \<Rightarrow> URL" where
  "example_url path query =
     \<lparr>origin = ''https://api.example.com'', pathname = path, searchParams = query, hash = []\<rparr>"

text \<open>The state right after \<^verbatim>\<open>fetcher.fetch(endpoint, method)\<close> on \<open>plain_host\<close>.\<close>

definition start :: "string \<Rightarrow> (string, string) state" where
  "start endpoint = \<lparr>url = example_url endpoint [], fetched = []\<rparr>"

section \<open>Properties of the library functions\<close>

lemma GetSubstitution_plain:
  "CHR ''$'' \<notin> set rep \<Longrightarrow> GetSubstitution matched preceding following rep = rep"
  by (induction matched preceding following rep rule: GetSubstitution.induct) auto

lemma startsWith_append:
  "length pat \<le> length s \<Longrightarrow> startsWith (s @ t) pat = startsWith s pat"
  by (simp add: startsWith_def)

lemma startsWith_iff: "startsWith s pat \<longleftrightarrow> (\<exists>b. s = pat @ b)"
  unfolding startsWith_def
proof (intro iffI)
  assume "take (length pat) s = pat"
  then have "pat @ drop (length pat) s = s"
    using append_take_drop_id [of "length pat" s] by simp
  then show "\<exists>b. s = pat @ b"
    by (intro exI [of _ "drop (length pat) s"]) simp
next
  assume "\<exists>b. s = pat @ b"
  then show "take (length pat) s = pat" by auto
qed

text \<open>\<open>String_includes\<close> is the substring test.\<close>

lemma String_includes_iff:
  "String_includes s pat \<longleftrightarrow> (\<exists>a b. s = a @ pat @ b)"
proof (induction s)
  case Nil
  then show ?case by auto
next
  case (Cons c s)
  have "startsWith (c # s) pat \<longleftrightarrow> (\<exists>b. c # s = pat @ b)"
    by (rule startsWith_iff)
  moreover have "(\<exists>a b. c # s = a @ pat @ b) \<longleftrightarrow>
      (\<exists>b. c # s = pat @ b) \<or> (\<exists>a b. s = a @ pat @ b)"
  proof
    assume "\<exists>a b. c # s = a @ pat @ b"
    then obtain a b where ab: "c # s = a @ pat @ b" by blast
    show "(\<exists>b. c # s = pat @ b) \<or> (\<exists>a b. s = a @ pat @ b)"
    proof (cases a)
      case Nil
      with ab show ?thesis by auto
    next
      case (Cons x a')
      with ab have "s = a' @ pat @ b" by simp
      then show ?thesis by blast
    qed
  next
    assume "(\<exists>b. c # s = pat @ b) \<or> (\<exists>a b. s = a @ pat @ b)"
    then show "\<exists>a b. c # s = a @ pat @ b"
    proof
      assume "\<exists>b. c # s = pat @ b"
      then obtain b where "c # s = [] @ pat @ b" by auto
      then show ?thesis by blast
    next
      assume "\<exists>a b. s = a @ pat @ b"
      then obtain a b where "c # s = (c # a) @ pat @ b" by auto
      then show ?thesis by blast
    qed
  qed
  ultimately show ?case using Cons.IH by simp
qed

lemma replace_from_match:
  "pat \<noteq> [] \<Longrightarrow>
     replace_from pre (pat @ b) pat rep = pre @ GetSubstitution pat pre b rep @ b"
  by (cases pat) (simp_all add: startsWith_def)

text \<open>
  Only the first occurrence is replaced: when \<open>pat\<close> does not start anywhere inside
  \<open>a\<close>, the text \<open>b\<close> after the occurrence is kept as it is, whatever it contains.
\<close>

lemma replace_from_first:
  assumes "pat \<noteq> []" and "\<not> String_includes (a @ butlast pat) pat"
  shows "replace_from pre (a @ pat @ b) pat rep
           = pre @ a @ GetSubstitution pat (pre @ a) b rep @ b"
  using assms(2)
proof (induction a arbitrary: pre)
  case Nil
  show ?case
    using replace_from_match [OF assms(1)] by simp
next
  case (Cons c a)
  have len: "length pat \<le> length ((c # a) @ butlast pat)"
    using assms(1) by simp
  from Cons.prems have ns: "\<not> startsWith ((c # a) @ butlast pat) pat"
    and ni: "\<not> String_includes (a @ butlast pat) pat"
    by simp_all
  have "(c # a) @ pat @ b = ((c # a) @ butlast pat) @ [last pat] @ b"
    using assms(1) by simp
  with ns len have "\<not> startsWith ((c # a) @ pat @ b) pat"
    by (metis startsWith_append)
  then have "replace_from pre ((c # a) @ pat @ b) pat rep
               = replace_from (pre @ [c]) (a @ pat @ b) pat rep"
    by simp
  also have "\<dots> = (pre @ [c]) @ a @ GetSubstitution pat ((pre @ [c]) @ a) b rep @ b"
    using Cons.IH [OF ni] .
  finally show ?case by simp
qed

text \<open>
  One step of the loop, for a value without \<^verbatim>\<open>$\<close>: the first occurrence of the token
  is replaced by the value and every later occurrence stays in the path that is
  assigned.
\<close>

lemma substitute_entry_first_occurrence:
  assumes "pathname u = a @ (CHR '':'' # key) @ b"
    and "\<not> String_includes (a @ butlast (CHR '':'' # key)) (CHR '':'' # key)"
    and "CHR ''$'' \<notin> set value"
  shows "substitute_entry h u (key, value) = u\<lparr>pathname := pathname_setter h (a @ value @ b)\<rparr>"
proof -
  have "String_includes (pathname u) (CHR '':'' # key)"
    unfolding String_includes_iff using assms(1) by blast
  moreover have "String_replace (pathname u) (CHR '':'' # key) value = a @ value @ b"
    unfolding String_replace_def assms(1)
    using replace_from_first [OF _ assms(2), of "[]" b "value"]
    by (simp add: GetSubstitution_plain [OF assms(3)])
  ultimately show ?thesis
    by (simp add: substitute_entry_def)
qed

lemma takeWhile_append_subset:
  "set (takeWhile P xs) \<subseteq> set (takeWhile P (xs @ ys))"
  by (induction xs) auto

lemma dropWhile_append_stop:
  "x \<in> set s \<Longrightarrow> \<not> P x \<Longrightarrow> dropWhile P (s @ t) = dropWhile P s @ t"
  by (induction s) auto

lemma last_segment_dropWhile:
  assumes "CHR ''/'' \<in> set s"
  shows "takeWhile (\<lambda>d. d \<noteq> CHR ''/'') (rev (dropWhile (\<lambda>d. d \<noteq> CHR ''/'') s))
           = takeWhile (\<lambda>d. d \<noteq> CHR ''/'') (rev (c # s))"
proof -
  let ?P = "\<lambda>d. d \<noteq> CHR ''/''"
  from assms have ne: "dropWhile ?P s \<noteq> []" by auto
  then have "hd (dropWhile ?P s) = CHR ''/''"
    using hd_dropWhile [of ?P s] by auto
  with ne have "CHR ''/'' \<in> set (dropWhile ?P s)"
    using hd_in_set [of "dropWhile ?P s"] by simp
  then have m: "CHR ''/'' \<in> set (rev (dropWhile ?P s))" by simp
  have e: "c # s = (c # takeWhile ?P s) @ dropWhile ?P s" by simp
  have r: "rev (c # s) = rev (dropWhile ?P s) @ rev (c # takeWhile ?P s)"
    by (subst e) (simp only: rev_append)
  have "takeWhile ?P (rev (dropWhile ?P s) @ rev (c # takeWhile ?P s))
          = takeWhile ?P (rev (dropWhile ?P s))"
    by (rule takeWhile_append1 [OF m]) simp
  with r show ?thesis by (simp only:)
qed

text \<open>
  The first colon of a path segment starts a match of the regular expression, and the
  match runs to the end of the segment.
\<close>

lemma match_placeholders_first_colon:
  "CHR '':'' \<notin> set (takeWhile (\<lambda>d. d \<noteq> CHR ''/'') (rev a)) \<Longrightarrow>
     (CHR '':'' # takeWhile (\<lambda>d. d \<noteq> CHR ''/'') b)
       \<in> set (match_placeholders (a @ CHR '':'' # b))"
proof (induction a rule: match_placeholders.induct)
  case 1
  then show ?case by simp
next
  case (2 c s)
  let ?P = "\<lambda>d. d \<noteq> CHR ''/''"
  show ?case
  proof (cases "c = CHR '':''")
    case True
    have slash: "CHR ''/'' \<in> set s"
    proof (rule ccontr)
      assume "CHR ''/'' \<notin> set s"
      with True have "\<forall>x \<in> set (rev (c # s)). ?P x" by auto
      then have t: "takeWhile ?P (rev (c # s)) = rev (c # s)"
        by (simp only: takeWhile_eq_all_conv)
      from "2.prems" have "CHR '':'' \<notin> set (rev (c # s))"
        unfolding t .
      with True show False by simp
    qed
    then have d: "dropWhile ?P (s @ CHR '':'' # b) = dropWhile ?P s @ CHR '':'' # b"
      by (rule dropWhile_append_stop) simp
    from "2.prems" last_segment_dropWhile [OF slash, of c]
    have "CHR '':'' \<notin> set (takeWhile ?P (rev (dropWhile ?P s)))" by simp
    from "2.IH"(1) [OF True this] d True show ?thesis by simp
  next
    case False
    have "set (takeWhile ?P (rev s)) \<subseteq> set (takeWhile ?P (rev (c # s)))"
      using takeWhile_append_subset [of ?P "rev s" "[c]"] by simp
    with "2.prems" have "CHR '':'' \<notin> set (takeWhile ?P (rev s))" by blast
    from "2.IH"(2) [OF False this] False show ?thesis by simp
  qed
qed

section \<open>Properties of assertHasAllParams\<close>

lemma Set_from_aux:
  "set (foldl (\<lambda>acc x. if x \<in> set acc then acc else acc @ [x]) acc xs) = set acc \<union> set xs"
  by (induction xs arbitrary: acc) auto

lemma set_Set_from: "set (Set_from xs) = set xs"
  by (simp add: Set_from_def Set_from_aux)

lemma distinct_Set_from_aux:
  "distinct acc \<Longrightarrow>
     distinct (foldl (\<lambda>acc x. if x \<in> set acc then acc else acc @ [x]) acc xs)"
  by (induction xs arbitrary: acc) auto

lemma distinct_Set_from: "distinct (Set_from xs)"
  by (simp add: Set_from_def distinct_Set_from_aux)

lemma set_missingParams:
  "set (missingParams h endpoint params) =
     {key \<in> set (map slice1 (match_placeholders endpoint)). \<not> has_property h params key}"
  by (simp add: missingParams_def set_Set_from)

text \<open>
  The check passes exactly when every placeholder name is a property of the mapping,
  own or inherited; otherwise the message lists the names that are not.
\<close>

lemma assertHasAllParams_Inr:
  "(assertHasAllParams h endpoint params = Inr u) \<longleftrightarrow>
     (\<forall>key \<in> set (map slice1 (match_placeholders endpoint)). has_property h params key)"
proof -
  have "missingParams h endpoint params = [] \<longleftrightarrow> set (missingParams h endpoint params) = {}"
    by simp
  then show ?thesis
    unfolding assertHasAllParams_def set_missingParams by auto
qed

lemma assertHasAllParams_Inl:
  "(assertHasAllParams h endpoint params = Inl e) \<longleftrightarrow>
     (missingParams h endpoint params \<noteq> [] \<and>
      e = Error (not_found_message (missingParams h endpoint params) endpoint))"
  by (auto simp: assertHasAllParams_def)

section \<open>Properties of the bound function\<close>

lemma map_of_request_init:
  "map_of (request_init options method payload) =
     ((map_option Option_value \<circ> map_of options)
        (''method'' \<mapsto> Method_value method))(''body'' \<mapsto> Body_value payload)"
proof -
  have "map_of (map (\<lambda>(k, v). (k, Option_value v :: ('a, 'b) init_value)) options)
          = map_option Option_value \<circ> map_of options"
    by (rule map_of_map)
  then show ?thesis
    by (simp add: request_init_def update_conv')
qed

text \<open>A call adds at most one request, and the request it adds is the one it built.\<close>

lemma bound_call_at_most_one:
  "fetched (snd (bound_call h transport init endpoint method args options st)) = fetched st
   \<or> (\<exists>req. fetched (snd (bound_call h transport init endpoint method args options st))
         = fetched st @ [req])"
  by (auto simp: bound_call_def Let_def split: sum.splits option.splits)

lemma bound_call_fetched:
  assumes "fetched (snd (bound_call h transport init endpoint method args options st))
             = fetched st @ [req]"
  shows "\<exists>u payload. resolve_url h init endpoint method args (url st) = Inr u
           \<and> resolve_body init endpoint method args = Inr payload
           \<and> req = \<lparr>req_url = u,
                    req_init = request_init (case options of None \<Rightarrow> [] | Some os \<Rightarrow> os)
                                 method payload\<rparr>"
  using assms
  by (auto simp: bound_call_def Let_def split: sum.splits option.splits)

text \<open>The URL that a call resolves stays in the closure for the next call.\<close>

lemma bound_call_keeps_url:
  "resolve_url h init endpoint method args (url st) = Inr u \<Longrightarrow>
     url (snd (bound_call h transport init endpoint method args options st)) = u"
  by (simp add: bound_call_def Let_def split: sum.splits option.splits)

text \<open>
  The three ways a call can go: the parameters fail, the body fails after the URL was
  rewritten, or the transport is applied to the request that the call built.
\<close>

lemma bound_call_url_fails:
  "resolve_url h init endpoint method args (url st) = Inl e \<Longrightarrow>
     bound_call h transport init endpoint method args options st = (Throws e, st)"
  by (simp add: bound_call_def)

lemma bound_call_body_fails:
  "resolve_url h init endpoint method args (url st) = Inr u \<Longrightarrow>
   resolve_body init endpoint method args = Inl e \<Longrightarrow>
     bound_call h transport init endpoint method args options st = (Throws e, st\<lparr>url := u\<rparr>)"
  by (simp add: bound_call_def)

lemma bound_call_reaches_transport:
  assumes "resolve_url h init endpoint method args (url st) = Inr u"
    and "resolve_body init endpoint method args = Inr payload"
    and "req = \<lparr>req_url = u,
                req_init = request_init (case options of None \<Rightarrow> [] | Some os \<Rightarrow> os)
                             method payload\<rparr>"
  shows "bound_call h transport init endpoint method args options st
           = (case api_entry init endpoint method of
                None \<Rightarrow> Throws TypeError
              | Some entry \<Rightarrow>
                  Promise (case transport req of
                             Inl x \<Rightarrow> Inl x
                           | Inr resp \<Rightarrow> response entry resp),
              \<lparr>url = u, fetched = fetched st @ [req]\<rparr>)"
  using assms
  by (simp add: bound_call_def Let_def split: option.splits)

text \<open>The payload that lines 105 to 107 compute.\<close>

lemma resolve_body_supplied:
  "args_body args = Some b \<Longrightarrow> api_entry init endpoint method = Some entry \<Longrightarrow>
   body entry = Some transform \<Longrightarrow> transform b = Inr pl \<Longrightarrow>
     resolve_body init endpoint method args = Inr (Some pl)"
  by (simp add: resolve_body_def)

lemma resolve_body_omitted:
  "args_body args = None \<Longrightarrow> resolve_body init endpoint method args = Inr None"
  by (simp add: resolve_body_def)

text \<open>A failed check ends the call before anything is written.\<close>

lemma bound_call_check_fails:
  assumes "case args_param args of
             None \<Rightarrow> params = []
           | Some p \<Rightarrow> (\<exists>entry transform. api_entry init endpoint method = Some entry
                          \<and> param entry = Some transform \<and> transform p = Inr params)"
    and "assertHasAllParams h endpoint params = Inl e"
  shows "bound_call h transport init endpoint method args options st = (Throws e, st)"
proof (cases "args_param args")
  case None
  with assms have "resolve_url h init endpoint method args (url st) = Inl e"
    by (simp add: resolve_url_def)
  then show ?thesis by (simp add: bound_call_def)
next
  case (Some p)
  with assms obtain entry transform where
    "api_entry init endpoint method = Some entry" "param entry = Some transform"
    "transform p = Inr params"
    by auto
  with Some assms(2) have "resolve_url h init endpoint method args (url st) = Inl e"
    by (simp add: resolve_url_def)
  then show ?thesis by (simp add: bound_call_def)
qed

lemmas call_defs =
  bound_call_def resolve_url_def resolve_body_def api_entry_def single_init_def
  sample_api_def assertHasAllParams_def missingParams_def Set_from_def slice1_def
  has_property_def plain_host_def substitute_def substitute_entry_def startsWith_def
  String_replace_def request_init_def start_def example_url_def ok_transport_def
  not_found_message_def Fetcher_fetch_def Let_def

lemma post_user_call:
  "bound_call plain_host ok_transport (single_init ''/users/:id'' ''POST'') ''/users/:id''
     ''POST'' \<lparr>args_param = Some [(''id'', ''1'')], args_body = Some ''hoge''\<rparr>
     (Some [(''method'', ''GET''), (''body'', ''x''), (''cache'', ''no-store'')])
     (start ''/users/:id'')
   = (Promise (Inr True),
      \<lparr>url = example_url ''/users/1'' [],
       fetched = [\<lparr>req_url = example_url ''/users/1'' [],
                   req_init = [(''method'', Method_value ''POST''),
                               (''body'', Body_value (Some ''name=hoge'')),
                               (''cache'', Option_value ''no-store'')]\<rparr>]\<rparr>)"
  by (simp add: call_defs)

section \<open>The claims\<close>

text \<open>
  C1. Two calls of one bound function with the same arguments. The function is the one
  that \<^verbatim>\<open>fetcher.fetch("/users/:id", "GET")\<close> returns; both calls pass
  \<^verbatim>\<open>{ param: { id: "1", v: "1" } }\<close>. The first call gives the transport the path
  \<^verbatim>\<open>/users/1\<close> with the query \<^verbatim>\<open>v=1\<close>. The second call finds no \<^verbatim>\<open>:id\<close> in the path of
  the captured URL object, which the first call rewrote, and appends to the query that
  the first call left: the transport gets the query \<^verbatim>\<open>v=1&id=1&v=1\<close>.
\<close>

theorem second_call_sends_other_url:
  "Fetcher_fetch plain_host (single_init ''/users/:id'' ''GET'') ''/users/:id''
     = Inr (url (start ''/users/:id''))
   \<and> map req_url (fetched (snd
        (bound_call plain_host ok_transport (single_init ''/users/:id'' ''GET'') ''/users/:id''
           ''GET'' \<lparr>args_param = Some [(''id'', ''1''), (''v'', ''1'')], args_body = None\<rparr> None
           (snd (bound_call plain_host ok_transport (single_init ''/users/:id'' ''GET'')
              ''/users/:id'' ''GET''
              \<lparr>args_param = Some [(''id'', ''1''), (''v'', ''1'')], args_body = None\<rparr> None
              (start ''/users/:id''))))))
     = [example_url ''/users/1'' [(''v'', ''1'')],
        example_url ''/users/1'' [(''v'', ''1''), (''id'', ''1''), (''v'', ''1'')]]"
  by (simp add: call_defs)

text \<open>
  C2. Two calls with no \<open>param\<close> argument, so that the resolved mapping is the
  empty one. The pattern \<^verbatim>\<open>/items/:valueOf\<close> has the placeholder \<open>valueOf\<close>, which is
  no key of the mapping, and the call goes on to the transport all the same:
  \<^verbatim>\<open>"valueOf" in {}\<close> holds, as for every name that \<^verbatim>\<open>Object.prototype\<close> has. The pattern
  \<^verbatim>\<open>/users/:id/:constructor\<close> has the placeholders \<open>id\<close> and \<open>constructor\<close>, neither
  a key of the mapping, and the message of the error names \<open>id\<close> only.
\<close>

theorem inherited_name_counts_as_supplied:
  "map slice1 (match_placeholders ''/items/:valueOf'') = [''valueOf'']
   \<and> bound_call plain_host ok_transport (single_init ''/items/:valueOf'' ''GET'')
       ''/items/:valueOf'' ''GET'' \<lparr>args_param = None, args_body = None\<rparr> None
       (start ''/items/:valueOf'')
     = (Promise (Inr True),
        \<lparr>url = example_url ''/items/:valueOf'' [],
         fetched = [\<lparr>req_url = example_url ''/items/:valueOf'' [],
                     req_init = [(''method'', Method_value ''GET''),
                                 (''body'', Body_value None)]\<rparr>]\<rparr>)
   \<and> map slice1 (match_placeholders ''/users/:id/:constructor'') = [''id'', ''constructor'']
   \<and> bound_call plain_host ok_transport (single_init ''/users/:id/:constructor'' ''GET'')
       ''/users/:id/:constructor'' ''GET'' \<lparr>args_param = None, args_body = None\<rparr> None
       (start ''/users/:id/:constructor'')
     = (Throws (Error (CHR 0x22 # ''id'' @ CHR 0x22
                         # '' not found in endpoint: /users/:id/:constructor'')),
        start ''/users/:id/:constructor'')"
  by (simp add: call_defs)

text \<open>
  C3. The pattern \<^verbatim>\<open>/a/:idx\<close> has the one placeholder \<open>idx\<close>. With the mapping
  \<^verbatim>\<open>{ id: "1", idx: "7" }\<close> the key \<open>id\<close> comes first, \<^verbatim>\<open>:id\<close> is found inside \<^verbatim>\<open>:idx\<close>
  and replaced, and \<open>idx\<close> ends up in the query: the URL has the path \<^verbatim>\<open>/a/1x\<close> and
  the query \<^verbatim>\<open>idx=7\<close>.
\<close>

theorem prefix_key_captures_placeholder:
  "match_placeholders ''/a/:idx'' = ['':idx'']
   \<and> map req_url (fetched (snd
        (bound_call plain_host ok_transport (single_init ''/a/:idx'' ''GET'') ''/a/:idx'' ''GET''
           \<lparr>args_param = Some [(''id'', ''1''), (''idx'', ''7'')], args_body = None\<rparr> None
           (start ''/a/:idx''))))
     = [example_url ''/a/1x'' [(''idx'', ''7'')]]"
  by (simp add: call_defs)

text \<open>
  C4. The pattern \<^verbatim>\<open>/users/:toString\<close> has a placeholder, and the bound function is
  called with no \<open>param\<close> argument. The check against \<^verbatim>\<open>{}\<close> passes, because
  \<^verbatim>\<open>"toString" in {}\<close> holds, and the transport is called with the pattern as the path.
\<close>

theorem call_without_param_reaches_transport:
  "match_placeholders ''/users/:toString'' = ['':toString'']
   \<and> bound_call plain_host ok_transport (single_init ''/users/:toString'' ''GET'')
       ''/users/:toString'' ''GET'' \<lparr>args_param = None, args_body = None\<rparr> None
       (start ''/users/:toString'')
     = (Promise (Inr True),
        \<lparr>url = example_url ''/users/:toString'' [],
         fetched = [\<lparr>req_url = example_url ''/users/:toString'' [],
                     req_init = [(''method'', Method_value ''GET''),
                                 (''body'', Body_value None)]\<rparr>]\<rparr>)"
  by (simp add: call_defs)

text \<open>
  C5. The pattern \<^verbatim>\<open>/docs/:hasOwnProperty\<close> has the placeholder \<open>hasOwnProperty\<close>, and
  the bound function is called with no \<open>param\<close> argument: the resolved mapping is the
  empty one and does not cover the placeholder. No error is thrown, and the transport
  is called with the pattern as the path: \<^verbatim>\<open>"hasOwnProperty" in {}\<close> holds.
\<close>

theorem uncovered_placeholder_reaches_transport:
  "map slice1 (match_placeholders ''/docs/:hasOwnProperty'') = [''hasOwnProperty'']
   \<and> ''hasOwnProperty'' \<notin> set (map fst ([] :: js_object))
   \<and> bound_call plain_host ok_transport (single_init ''/docs/:hasOwnProperty'' ''GET'')
       ''/docs/:hasOwnProperty'' ''GET'' \<lparr>args_param = None, args_body = None\<rparr> None
       (start ''/docs/:hasOwnProperty'')
     = (Promise (Inr True),
        \<lparr>url = example_url ''/docs/:hasOwnProperty'' [],
         fetched = [\<lparr>req_url = example_url ''/docs/:hasOwnProperty'' [],
                     req_init = [(''method'', Method_value ''GET''),
                                 (''body'', Body_value None)]\<rparr>]\<rparr>)"
  by (simp add: call_defs)

text \<open>
  C6. A call that gets past the parameters and the body applies the transport to one
  request, the one it adds to the calls, and returns what comes of that. The second
  argument of that request has the method of the binding under \<open>method\<close> and the payload
  that this call computed under \<open>body\<close>, whatever \<open>options\<close> holds under these two
  names, and under every other name it has what \<open>options\<close> has.
\<close>

theorem method_and_body_fixed:
  assumes "resolve_url h init endpoint method args (url st) = Inr u"
    and "resolve_body init endpoint method args = Inr payload"
  shows "\<exists>req. bound_call h transport init endpoint method args options st
                 = (case api_entry init endpoint method of
                      None \<Rightarrow> Throws TypeError
                    | Some entry \<Rightarrow>
                        Promise (case transport req of
                                   Inl x \<Rightarrow> Inl x
                                 | Inr resp \<Rightarrow> response entry resp),
                    \<lparr>url = u, fetched = fetched st @ [req]\<rparr>)
           \<and> req_url req = u
           \<and> map_of (req_init req) ''method'' = Some (Method_value method)
           \<and> map_of (req_init req) ''body'' = Some (Body_value payload)
           \<and> (\<forall>k. k \<noteq> ''method'' \<longrightarrow> k \<noteq> ''body'' \<longrightarrow>
                 map_of (req_init req) k
                   = map_option Option_value
                       (map_of (case options of None \<Rightarrow> [] | Some os \<Rightarrow> os) k))"
proof -
  let ?req = "\<lparr>req_url = u,
               req_init = request_init (case options of None \<Rightarrow> [] | Some os \<Rightarrow> os)
                            method payload\<rparr>"
  have "map_of (req_init ?req) =
     ((map_option Option_value \<circ> map_of (case options of None \<Rightarrow> [] | Some os \<Rightarrow> os))
        (''method'' \<mapsto> Method_value method))(''body'' \<mapsto> Body_value payload)"
    by (simp add: map_of_request_init)
  then have "req_url ?req = u
      \<and> map_of (req_init ?req) ''method'' = Some (Method_value method)
      \<and> map_of (req_init ?req) ''body'' = Some (Body_value payload)
      \<and> (\<forall>k. k \<noteq> ''method'' \<longrightarrow> k \<noteq> ''body'' \<longrightarrow>
            map_of (req_init ?req) k
              = map_option Option_value
                  (map_of (case options of None \<Rightarrow> [] | Some os \<Rightarrow> os) k))"
    by simp
  with bound_call_reaches_transport [OF assms refl, of transport options]
  show ?thesis by blast
qed

theorem method_and_body_fixed_witness:
  "resolve_url plain_host (single_init ''/users/:id'' ''POST'') ''/users/:id'' ''POST''
     \<lparr>args_param = Some [(''id'', ''1'')], args_body = Some ''hoge''\<rparr>
     (url (start ''/users/:id'')) = Inr (example_url ''/users/1'' [])
   \<and> resolve_body (single_init ''/users/:id'' ''POST'') ''/users/:id'' ''POST''
       \<lparr>args_param = Some [(''id'', ''1'')], args_body = Some ''hoge''\<rparr>
       = Inr (Some ''name=hoge'')
   \<and> (\<exists>req. bound_call plain_host (expecting_transport ''/users/1'' ''POST'' (Some ''name=hoge''))
               (single_init ''/users/:id'' ''POST'') ''/users/:id'' ''POST''
               \<lparr>args_param = Some [(''id'', ''1'')], args_body = Some ''hoge''\<rparr>
               (Some [(''method'', ''GET''), (''body'', ''x''), (''cache'', ''no-store'')])
               (start ''/users/:id'')
             = (Promise (Inr True),
                \<lparr>url = example_url ''/users/1'' [], fetched = [req]\<rparr>)
           \<and> req_url req = example_url ''/users/1'' []
           \<and> map_of (req_init req) ''method'' = Some (Method_value ''POST'')
           \<and> map_of (req_init req) ''body'' = Some (Body_value (Some ''name=hoge''))
           \<and> map_of (req_init req) ''cache'' = Some (Option_value ''no-store''))"
proof -
  let ?args = "\<lparr>args_param = Some [(''id'', ''1'')], args_body = Some ''hoge''\<rparr>"
  let ?init = "single_init ''/users/:id'' ''POST''"
  let ?transport = "expecting_transport ''/users/1'' ''POST'' (Some ''name=hoge'')"
  let ?options = "Some [(''method'', ''GET''), (''body'', ''x''), (''cache'', ''no-store'')]"
  have u: "resolve_url plain_host ?init ''/users/:id'' ''POST'' ?args (url (start ''/users/:id''))
             = Inr (example_url ''/users/1'' [])"
    by (simp add: call_defs)
  have b: "resolve_body ?init ''/users/:id'' ''POST'' ?args = Inr (Some ''name=hoge'')"
    by (simp add: call_defs)
  have e: "api_entry ?init ''/users/:id'' ''POST'' = Some sample_api"
    by (simp add: api_entry_def single_init_def)
  from method_and_body_fixed [OF u b, of ?transport ?options]
  obtain req where r:
    "bound_call plain_host ?transport ?init ''/users/:id'' ''POST'' ?args ?options
       (start ''/users/:id'')
     = (case api_entry ?init ''/users/:id'' ''POST'' of
          None \<Rightarrow> Throws TypeError
        | Some entry \<Rightarrow>
            Promise (case ?transport req of
                       Inl x \<Rightarrow> Inl x
                     | Inr resp \<Rightarrow> response entry resp),
        \<lparr>url = example_url ''/users/1'' [],
         fetched = fetched (start ''/users/:id'') @ [req]\<rparr>)"
    and p: "req_url req = example_url ''/users/1'' []"
    and m: "map_of (req_init req) ''method'' = Some (Method_value ''POST'')"
    and y: "map_of (req_init req) ''body'' = Some (Body_value (Some ''name=hoge''))"
    and k: "\<forall>k. k \<noteq> ''method'' \<longrightarrow> k \<noteq> ''body'' \<longrightarrow>
              map_of (req_init req) k
                = map_option Option_value
                    (map_of (case ?options of None \<Rightarrow> [] | Some os \<Rightarrow> os) k)"
    by blast
  from k have "''cache'' \<noteq> ''method'' \<longrightarrow> ''cache'' \<noteq> ''body'' \<longrightarrow>
      map_of (req_init req) ''cache''
        = map_option Option_value
            (map_of (case ?options of None \<Rightarrow> [] | Some os \<Rightarrow> os) ''cache'')"
    by (rule spec)
  then have c: "map_of (req_init req) ''cache'' = Some (Option_value ''no-store'')"
    by simp
  from p m y have "?transport req = Inr ''ok''"
    by (simp add: expecting_transport_def example_url_def)
  with r have "bound_call plain_host ?transport ?init ''/users/:id'' ''POST'' ?args ?options
       (start ''/users/:id'')
     = (Promise (Inr True), \<lparr>url = example_url ''/users/1'' [], fetched = [req]\<rparr>)"
    by (simp add: e sample_api_def start_def)
  with u b p m y c show ?thesis by blast
qed

text \<open>
  C7. A call that gets past the parameters applies the transport to one request, the
  one it adds to the calls, and returns what comes of that. When a \<open>body\<close> argument is
  supplied, the \<open>body\<close> of that request is what the registered \<open>body\<close> transform returns
  for the argument; when the argument is omitted or null, it is undefined.
\<close>

theorem body_pass_through:
  assumes "resolve_url h init endpoint method args (url st) = Inr u"
    and "case args_body args of
           None \<Rightarrow> payload = None
         | Some b \<Rightarrow> (\<exists>entry transform pl. api_entry init endpoint method = Some entry
                        \<and> body entry = Some transform \<and> transform b = Inr pl
                        \<and> payload = Some pl)"
  shows "\<exists>req. bound_call h transport init endpoint method args options st
                 = (case api_entry init endpoint method of
                      None \<Rightarrow> Throws TypeError
                    | Some entry \<Rightarrow>
                        Promise (case transport req of
                                   Inl x \<Rightarrow> Inl x
                                 | Inr resp \<Rightarrow> response entry resp),
                    \<lparr>url = u, fetched = fetched st @ [req]\<rparr>)
           \<and> req_url req = u
           \<and> map_of (req_init req) ''body'' = Some (Body_value payload)"
proof -
  let ?req = "\<lparr>req_url = u,
               req_init = request_init (case options of None \<Rightarrow> [] | Some os \<Rightarrow> os)
                            method payload\<rparr>"
  have b: "resolve_body init endpoint method args = Inr payload"
  proof (cases "args_body args")
    case None
    with assms(2) show ?thesis by (simp add: resolve_body_omitted)
  next
    case (Some b)
    with assms(2) show ?thesis by (auto simp: resolve_body_supplied)
  qed
  have "req_url ?req = u \<and> map_of (req_init ?req) ''body'' = Some (Body_value payload)"
    by (simp add: map_of_request_init)
  with bound_call_reaches_transport [OF assms(1) b refl, of transport options]
  show ?thesis by blast
qed

theorem body_pass_through_witness:
  "(\<exists>req. bound_call plain_host (expecting_transport ''/users/1'' ''POST'' (Some ''name=hoge''))
            (single_init ''/users/:id'' ''POST'') ''/users/:id'' ''POST''
            \<lparr>args_param = Some [(''id'', ''1'')], args_body = Some ''hoge''\<rparr> None
            (start ''/users/:id'')
          = (Promise (Inr True), \<lparr>url = example_url ''/users/1'' [], fetched = [req]\<rparr>)
        \<and> map_of (req_init req) ''body'' = Some (Body_value (Some ''name=hoge'')))
   \<and> (\<exists>req. bound_call plain_host (expecting_transport ''/users/1'' ''POST'' None)
            (single_init ''/users/:id'' ''POST'') ''/users/:id'' ''POST''
            \<lparr>args_param = Some [(''id'', ''1'')], args_body = None\<rparr> None
            (start ''/users/:id'')
          = (Promise (Inr True), \<lparr>url = example_url ''/users/1'' [], fetched = [req]\<rparr>)
        \<and> map_of (req_init req) ''body'' = Some (Body_value None))"
proof -
  let ?init = "single_init ''/users/:id'' ''POST''"
  let ?with = "\<lparr>args_param = Some [(''id'', ''1'')], args_body = Some ''hoge''\<rparr>"
  let ?without = "\<lparr>args_param = Some [(''id'', ''1'')], args_body = None :: string option\<rparr>"
  let ?t1 = "expecting_transport ''/users/1'' ''POST'' (Some ''name=hoge'')"
  let ?t2 = "expecting_transport ''/users/1'' ''POST'' None"
  have e: "api_entry ?init ''/users/:id'' ''POST'' = Some sample_api"
    by (simp add: api_entry_def single_init_def)
  have t: "body sample_api = Some (\<lambda>name. Inr (''name='' @ name))"
    by (simp add: sample_api_def)
  have u1: "resolve_url plain_host ?init ''/users/:id'' ''POST'' ?with (url (start ''/users/:id''))
              = Inr (example_url ''/users/1'' [])"
    by (simp add: call_defs)
  have u2: "resolve_url plain_host ?init ''/users/:id'' ''POST'' ?without
              (url (start ''/users/:id'')) = Inr (example_url ''/users/1'' [])"
    by (simp add: call_defs)
  have s1: "case args_body ?with of
              None \<Rightarrow> Some ''name=hoge'' = None
            | Some b \<Rightarrow>
                (\<exists>entry transform pl. api_entry ?init ''/users/:id'' ''POST'' = Some entry
                   \<and> body entry = Some transform \<and> transform b = Inr pl
                   \<and> Some ''name=hoge'' = Some pl)"
    using e t by simp
  have s2: "case args_body ?without of
              None \<Rightarrow> (None :: string option) = None
            | Some b \<Rightarrow>
                (\<exists>entry transform pl. api_entry ?init ''/users/:id'' ''POST'' = Some entry
                   \<and> body entry = Some transform \<and> transform b = Inr pl
                   \<and> None = Some pl)"
    by simp
  from body_pass_through [OF u1 s1, of ?t1 None]
  obtain req1 where r1:
    "bound_call plain_host ?t1 ?init ''/users/:id'' ''POST'' ?with None (start ''/users/:id'')
     = (case api_entry ?init ''/users/:id'' ''POST'' of
          None \<Rightarrow> Throws TypeError
        | Some entry \<Rightarrow>
            Promise (case ?t1 req1 of Inl x \<Rightarrow> Inl x | Inr resp \<Rightarrow> response entry resp),
        \<lparr>url = example_url ''/users/1'' [],
         fetched = fetched (start ''/users/:id'') @ [req1]\<rparr>)"
    and p1: "req_url req1 = example_url ''/users/1'' []"
    and y1: "map_of (req_init req1) ''body'' = Some (Body_value (Some ''name=hoge''))"
    by blast
  from body_pass_through [OF u2 s2, of ?t2 None]
  obtain req2 where r2:
    "bound_call plain_host ?t2 ?init ''/users/:id'' ''POST'' ?without None (start ''/users/:id'')
     = (case api_entry ?init ''/users/:id'' ''POST'' of
          None \<Rightarrow> Throws TypeError
        | Some entry \<Rightarrow>
            Promise (case ?t2 req2 of Inl x \<Rightarrow> Inl x | Inr resp \<Rightarrow> response entry resp),
        \<lparr>url = example_url ''/users/1'' [],
         fetched = fetched (start ''/users/:id'') @ [req2]\<rparr>)"
    and p2: "req_url req2 = example_url ''/users/1'' []"
    and y2: "map_of (req_init req2) ''body'' = Some (Body_value None)"
    by blast
  have "fetched (snd (bound_call plain_host ?t1 ?init ''/users/:id'' ''POST'' ?with None
          (start ''/users/:id''))) = [req1]"
    by (simp only: r1) (simp add: start_def)
  then have m1: "map_of (req_init req1) ''method'' = Some (Method_value ''POST'')"
    by (simp add: call_defs split: if_splits) auto
  have "fetched (snd (bound_call plain_host ?t2 ?init ''/users/:id'' ''POST'' ?without None
          (start ''/users/:id''))) = [req2]"
    by (simp only: r2) (simp add: start_def)
  then have m2: "map_of (req_init req2) ''method'' = Some (Method_value ''POST'')"
    by (simp add: call_defs split: if_splits) auto
  from p1 m1 y1 have "?t1 req1 = Inr ''ok''"
    by (simp add: expecting_transport_def example_url_def)
  with r1 have a1:
    "bound_call plain_host ?t1 ?init ''/users/:id'' ''POST'' ?with None (start ''/users/:id'')
     = (Promise (Inr True), \<lparr>url = example_url ''/users/1'' [], fetched = [req1]\<rparr>)"
    by (simp add: e sample_api_def start_def)
  from p2 m2 y2 have "?t2 req2 = Inr ''ok''"
    by (simp add: expecting_transport_def example_url_def)
  with r2 have a2:
    "bound_call plain_host ?t2 ?init ''/users/:id'' ''POST'' ?without None (start ''/users/:id'')
     = (Promise (Inr True), \<lparr>url = example_url ''/users/1'' [], fetched = [req2]\<rparr>)"
    by (simp add: e sample_api_def start_def)
  from a1 y1 a2 y2 show ?thesis by blast
qed

text \<open>
  C8. When a call reaches the transport and the transport answers with a response, the
  caller gets the promise of the registered \<open>response\<close> transform applied to that
  response, and nothing else.
\<close>

theorem response_mapping:
  assumes "bound_call h transport init endpoint method args options st = (out, st')"
    and "fetched st' = fetched st @ [req]"
    and "api_entry init endpoint method = Some entry"
    and "transport req = Inr resp"
  shows "out = Promise (response entry resp)"
  using assms
  by (auto simp: bound_call_def Let_def split: sum.splits option.splits)

theorem response_mapping_witness:
  "fst (bound_call plain_host ok_transport (single_init ''/users/:id'' ''POST'') ''/users/:id''
     ''POST'' \<lparr>args_param = Some [(''id'', ''1'')], args_body = Some ''hoge''\<rparr>
     (Some [(''method'', ''GET''), (''body'', ''x''), (''cache'', ''no-store'')])
     (start ''/users/:id''))
   = Promise (response sample_api ''ok'') \<and> response sample_api ''ok'' = Inr True"
proof -
  have e: "api_entry (single_init ''/users/:id'' ''POST'') ''/users/:id'' ''POST''
             = Some sample_api"
    by (simp add: api_entry_def single_init_def)
  have t: "ok_transport
             \<lparr>req_url = example_url ''/users/1'' [],
              req_init = [(''method'', Method_value ''POST''),
                          (''body'', Body_value (Some ''name=hoge'')),
                          (''cache'', Option_value ''no-store'')]\<rparr> = Inr ''ok''"
    by (simp add: ok_transport_def)
  have "Promise (Inr True) = Promise (response sample_api ''ok'')"
    using response_mapping [OF post_user_call _ e t] by (simp add: start_def)
  then show ?thesis
    by (simp add: post_user_call sample_api_def)
qed

text \<open>
  C9. The pattern \<^verbatim>\<open>/a/:id/b/:id\<close> names \<open>id\<close> twice, and the value of \<open>id\<close> is
  \<^verbatim>\<open>$$\<close>. The second \<^verbatim>\<open>:id\<close> stays, and the first is replaced by \<^verbatim>\<open>$\<close>, not by the
  value: \<^verbatim>\<open>replace\<close> reads \<^verbatim>\<open>$$\<close> in its second argument as an escaped dollar sign.
\<close>

theorem dollar_value_is_expanded:
  "map req_url (fetched (snd
     (bound_call plain_host ok_transport (single_init ''/a/:id/b/:id'' ''GET'') ''/a/:id/b/:id''
        ''GET'' \<lparr>args_param = Some [(''id'', ''$$'')], args_body = None\<rparr> None
        (start ''/a/:id/b/:id''))))
   = [example_url ''/a/$/b/:id'' []]"
  by (simp add: call_defs)

text \<open>
  C10, as stated, at the pattern \<^verbatim>\<open>/x/:a:\<close>. Its last colon is followed by the end of
  the string, but the match that starts at the first colon of the segment takes it: the
  only placeholder is \<open>a:\<close>. With the mapping \<^verbatim>\<open>{ "a:": "1" }\<close>, which has no empty
  key, the call reaches the transport.
\<close>

theorem colon_inside_name_is_no_placeholder:
  "''/x/:a:'' = ''/x/:a'' @ CHR '':'' # []
   \<and> match_placeholders ''/x/:a:'' = ['':a:'']
   \<and> '''' \<notin> set (map fst [(''a:'', ''1'')])
   \<and> bound_call plain_host ok_transport (single_init ''/x/:a:'' ''GET'') ''/x/:a:'' ''GET''
       \<lparr>args_param = Some [(''a:'', ''1'')], args_body = None\<rparr> None (start ''/x/:a:'')
     = (Promise (Inr True),
        \<lparr>url = example_url ''/x/1'' [],
         fetched = [\<lparr>req_url = example_url ''/x/1'' [],
                     req_init = [(''method'', Method_value ''GET''),
                                 (''body'', Body_value None)]\<rparr>]\<rparr>)"
  by (simp add: call_defs)

text \<open>
  C10, amended. A colon that is followed by \<^verbatim>\<open>/\<close> or by the end of the pattern, and that
  is the first colon of its path segment (no colon between it and the \<^verbatim>\<open>/\<close> before it,
  or the start of the pattern), is a placeholder with the empty name. On a host whose
  \<^verbatim>\<open>Object.prototype\<close> has no property of that name, a call whose resolved mapping has
  no empty key throws the missing-parameter error, the empty name is among the names
  listed, and the state is left as it was.
\<close>

theorem bare_colon_needs_empty_key:
  assumes "endpoint = a @ CHR '':'' # b"
    and "b = [] \<or> (\<exists>b'. b = CHR ''/'' # b')"
    and "CHR '':'' \<notin> set (takeWhile (\<lambda>d. d \<noteq> CHR ''/'') (rev a))"
    and "'''' \<notin> set (Object_prototype h)"
    and "case args_param args of
           None \<Rightarrow> params = []
         | Some p \<Rightarrow> (\<exists>entry transform. api_entry init endpoint method = Some entry
                        \<and> param entry = Some transform \<and> transform p = Inr params)"
    and "'''' \<notin> set (map fst params)"
  shows "'''' \<in> set (map slice1 (match_placeholders endpoint))
         \<and> (\<exists>missing. '''' \<in> set missing
              \<and> bound_call h transport init endpoint method args options st
                  = (Throws (Error (not_found_message missing endpoint)), st))"
proof -
  let ?P = "\<lambda>d. d \<noteq> CHR ''/''"
  from assms(2) have "takeWhile ?P b = []" by auto
  with match_placeholders_first_colon [OF assms(3), of b] assms(1)
  have "[CHR '':''] \<in> set (match_placeholders endpoint)" by simp
  then have "slice1 [CHR '':''] \<in> set (map slice1 (match_placeholders endpoint))"
    by (simp only: set_map) (rule imageI)
  then have name: "'''' \<in> set (map slice1 (match_placeholders endpoint))"
    by (simp add: slice1_def)
  from assms(4,6) have "\<not> has_property h params ''''"
    by (simp add: has_property_def)
  with name have missing: "'''' \<in> set (missingParams h endpoint params)"
    by (simp add: set_missingParams)
  then have "missingParams h endpoint params \<noteq> []" by auto
  then have "assertHasAllParams h endpoint params
               = Inl (Error (not_found_message (missingParams h endpoint params) endpoint))"
    by (simp add: assertHasAllParams_Inl)
  from bound_call_check_fails [OF assms(5) this] missing name show ?thesis by blast
qed

theorem bare_colon_needs_empty_key_witness:
  "'''' \<in> set (map slice1 (match_placeholders ''/users/:/posts''))
   \<and> (\<exists>missing. '''' \<in> set missing
        \<and> bound_call plain_host ok_transport (single_init ''/users/:/posts'' ''GET'')
            ''/users/:/posts'' ''GET'' \<lparr>args_param = None, args_body = None\<rparr> None
            (start ''/users/:/posts'')
          = (Throws (Error (not_found_message missing ''/users/:/posts'')),
             start ''/users/:/posts''))"
  using bare_colon_needs_empty_key
    [where endpoint = "''/users/:/posts''" and a = "''/users/''" and b = "''/posts''"
       and h = plain_host and args = "\<lparr>args_param = None, args_body = None\<rparr>"
       and params = "[]"]
  by (simp add: plain_host_def)

end
